theory Spec2Isabelle
  imports Main "HOL-Library.Sublist"
begin

section \<open>html-util.js: escaping and the tagged template \<open>element\<close>\<close>

text \<open>
  The JavaScript values that can be interpolated into a template. \<open>JNumber n\<close> stands
  for an integer-valued number that \<open>String\<close> prints in plain decimal notation,
  \<open>JObject\<close> for a plain object with the default \<open>toString\<close>. Strings are lists
  of characters; the five characters that \<open>escapeSpecialChars\<close> looks for are ASCII.
\<close>

datatype js_value =
    JString (str_of: string)
  | JNumber int
  | JBoolean bool
  | JUndefined
  | JNull
  | JArray "js_value list"
  | JObject

datatype js_error = TypeError

text \<open>The results of \<open>typeof\<close> on these values.\<close>

datatype js_type = TString | TNumber | TBoolean | TUndefined | TObject

fun typeof :: "js_value \<Rightarrow> js_type" where
  "typeof (JString s) = TString"
| "typeof (JNumber n) = TNumber"
| "typeof (JBoolean b) = TBoolean"
| "typeof JUndefined = TUndefined"
| "typeof JNull = TObject"
| "typeof (JArray vs) = TObject"
| "typeof JObject = TObject"

text \<open>Decimal digits of a natural number, as \<open>String\<close> prints an integer.\<close>

fun decimal :: "nat \<Rightarrow> string" where
  "decimal n =
     (if n < 10 then [''0123456789'' ! n]
      else decimal (n div 10) @ [''0123456789'' ! (n mod 10)])"

text \<open>\<open>Array.prototype.join(",")\<close> on the already converted elements.\<close>

fun join_comma :: "string list \<Rightarrow> string" where
  "join_comma [] = []"
| "join_comma [s] = s"
| "join_comma (s # t # ss) = s @ '','' @ join_comma (t # ss)"

text \<open>
  \<open>String(value)\<close>. An array is joined with commas, its \<open>undefined\<close> and \<open>null\<close>
  elements giving the empty string.
\<close>

fun js_String :: "js_value \<Rightarrow> string" where
  "js_String (JString s) = s"
| "js_String (JNumber n) = (if n < 0 then ''-'' @ decimal (nat (- n)) else decimal (nat n))"
| "js_String (JBoolean b) = (if b then ''true'' else ''false'')"
| "js_String JUndefined = ''undefined''"
| "js_String JNull = ''null''"
| "js_String (JArray vs) =
     join_comma (map (\<lambda>v. case v of JUndefined \<Rightarrow> [] | JNull \<Rightarrow> [] | _ \<Rightarrow> js_String v) vs)"
| "js_String JObject = ''[object Object]''"

text \<open>\<open>str.replace(/c/g, rep)\<close> for a single character \<open>c\<close>.\<close>

definition replace_all :: "char \<Rightarrow> string \<Rightarrow> string \<Rightarrow> string" where
  "replace_all c rep str = concat (map (\<lambda>x. if x = c then rep else [x]) str)"

text \<open>The five replacements of \<open>escapeSpecialChars\<close>, in the order of the source.\<close>

definition escapeSpecialChars :: "string \<Rightarrow> string" where
  "escapeSpecialChars str =
     replace_all (CHR 0x27) ''&#039;''
       (replace_all (CHR 0x22) ''&quot;''
         (replace_all (CHR ''>'') ''&gt;''
           (replace_all (CHR ''<'') ''&lt;''
             (replace_all (CHR ''&'') ''&amp;'' str))))"

text \<open>\<open>values[j]\<close>: reading past the end of a JavaScript array gives \<open>undefined\<close>.\<close>

definition array_get :: "js_value list \<Rightarrow> nat \<Rightarrow> js_value" where
  "array_get vs j = (if j < length vs then vs ! j else JUndefined)"

text \<open>The callback given to \<open>strings.reduce\<close> in \<open>element\<close>.\<close>

definition element_callback :: "js_value list \<Rightarrow> string \<Rightarrow> string \<Rightarrow> nat \<Rightarrow> string" where
  "element_callback vs result str i =
     (let v = array_get vs (i - 1) in
      if typeof v = TString
      then result @ escapeSpecialChars (str_of v) @ str
      else result @ js_String v @ str)"

text \<open>
  \<open>Array.prototype.reduce\<close> without an initial value: the accumulator starts as the
  first element and the callback runs from index 1; on an empty array it throws.
\<close>

fun reduce_loop :: "js_value list \<Rightarrow> string \<Rightarrow> nat \<Rightarrow> string list \<Rightarrow> string" where
  "reduce_loop vs result i [] = result"
| "reduce_loop vs result i (str # strs) =
     reduce_loop vs (element_callback vs result str i) (Suc i) strs"

text \<open>
  \<open>element(strings, ...values)\<close> up to the markup handed to \<open>htmlToElement\<close>; the
  parsing of that markup by the browser is outside the model.
\<close>

definition element_htmlString :: "string list \<Rightarrow> js_value list \<Rightarrow> js_error + string" where
  "element_htmlString strings vs =
     (case strings of
        [] \<Rightarrow> Inl TypeError
      | s0 # rest \<Rightarrow> Inr (reduce_loop vs s0 1 rest))"


section \<open>EventEmitter.js\<close>

text \<open>
  A JavaScript \<open>Set\<close>: no element twice, iterated in insertion order. The elements
  here are listener functions, compared by identity; a listener is represented by the
  number that identifies the function object.
\<close>

typedef 'a js_set = "{xs :: 'a list. distinct xs}"
  morphisms set_values Abs_js_set
  by (rule exI [of _ "[]"]) simp

setup_lifting type_definition_js_set

lift_definition set_new :: "'a js_set" is "[]"
  by simp

lift_definition set_add :: "'a \<Rightarrow> 'a js_set \<Rightarrow> 'a js_set"
  is "\<lambda>x xs. if x \<in> set xs then xs else xs @ [x]"
  by simp

lift_definition set_delete :: "'a \<Rightarrow> 'a js_set \<Rightarrow> 'a js_set"
  is "\<lambda>x xs. removeAll x xs"
  by (simp add: distinct_removeAll)

type_synonym listener = nat
type_synonym ref = nat

section \<open>TodoItemModel.js\<close>

record TodoItemModel =
  id' :: nat
  title :: string
  completed :: bool

definition isEmptyTitle :: "TodoItemModel \<Rightarrow> bool" where
  "isEmptyTitle this = (length (title this) = 0)"

section \<open>The program state\<close>

text \<open>
  Entities and arrays are objects that several places can refer to, so they live in a
  store and are passed around by reference. \<open>nextObject\<close> and \<open>nextArray\<close> are the
  first references not yet handed out. \<open>todoIdx\<close> is the module-level counter of
  TodoItemModel.js, \<open>listeners\<close> the \<open>#listeners\<close> map of the one TodoListModel,
  \<open>items\<close> its \<open>#items\<close> (a reference to an array), \<open>formListeners\<close> the listeners
  registered on the form element. A listener's body is not part of the model (the App's
  \<open>#handleChange\<close> reads the model and writes to the page only): \<open>calls\<close> records, in
  order, which listener was invoked, and \<open>seen\<close> records for each of these invocations
  the entities that the model holds at that moment, which is what the listener gets from
  \<open>getTodoItems\<close> and \<open>getTotalCount\<close>.
\<close>

record world =
  todoIdx :: nat
  objects :: "ref \<Rightarrow> TodoItemModel"
  nextObject :: ref
  arrays :: "ref \<Rightarrow> ref list"
  nextArray :: ref
  listeners :: "string \<rightharpoonup> listener js_set"
  items :: ref
  formListeners :: "string \<rightharpoonup> listener js_set"
  calls :: "listener list"
  seen :: "TodoItemModel list list"

text \<open>
  \<open>todoIdx++\<close> on a JavaScript number. The counter starts at 0 and holds integers; a
  number represents them exactly up to \<open>2^53\<close>, where adding 1 rounds back to \<open>2^53\<close>,
  so from there on the counter keeps its value.
\<close>

definition counter_limit :: nat where
  "counter_limit = 9007199254740992"

definition increment :: "nat \<Rightarrow> nat" where
  "increment n = (if n < counter_limit then Suc n else n)"

text \<open>\<open>new TodoItemModel({ title, completed })\<close>: \<open>this.id = todoIdx++\<close>.\<close>

definition new_TodoItemModel :: "string \<Rightarrow> bool \<Rightarrow> world \<Rightarrow> ref \<times> world" where
  "new_TodoItemModel t c w =
     (let this = nextObject w in
      (this, w\<lparr>objects := (objects w)(this := \<lparr>id' = todoIdx w, title = t, completed = c\<rparr>),
               nextObject := Suc this,
               todoIdx := increment (todoIdx w)\<rparr>))"

text \<open>A new array with the given elements (an array literal, or the result of \<open>filter\<close>).\<close>

definition new_array :: "ref list \<Rightarrow> world \<Rightarrow> ref \<times> world" where
  "new_array xs w =
     (let a = nextArray w in
      (a, w\<lparr>arrays := (arrays w)(a := xs), nextArray := Suc a\<rparr>))"

text \<open>\<open>array.push(x)\<close> on the array that \<open>a\<close> refers to.\<close>

definition array_push :: "ref \<Rightarrow> ref \<Rightarrow> world \<Rightarrow> world" where
  "array_push a x w = w\<lparr>arrays := (arrays w)(a := arrays w a @ [x])\<rparr>"

subsection \<open>EventEmitter methods\<close>

text \<open>
  \<open>addEventListener\<close> creates the set for a new type and adds the listener to the
  set of the type.
\<close>

definition addEventListener :: "string \<Rightarrow> listener \<Rightarrow> world \<Rightarrow> world" where
  "addEventListener type l w =
     (let listenerSet = (case listeners w type of None \<Rightarrow> set_new | Some S \<Rightarrow> S)
      in w\<lparr>listeners := (listeners w)(type \<mapsto> set_add l listenerSet)\<rparr>)"

text \<open>\<open>listener.call(this)\<close>: the listener runs now, on the model as it is now.\<close>

definition call :: "listener \<Rightarrow> world \<Rightarrow> world" where
  "call l w =
     w\<lparr>calls := calls w @ [l], seen := seen w @ [map (objects w) (arrays w (items w))]\<rparr>"

definition emit :: "string \<Rightarrow> world \<Rightarrow> world" where
  "emit type w =
     (case listeners w type of
        None \<Rightarrow> w
      | Some listenerSet \<Rightarrow> foldl (\<lambda>w' l. call l w') w (set_values listenerSet))"

definition removeEventListener :: "string \<Rightarrow> listener \<Rightarrow> world \<Rightarrow> world" where
  "removeEventListener type l w =
     (case listeners w type of
        None \<Rightarrow> w
      | Some listenerSet \<Rightarrow>
          w\<lparr>listeners := (listeners w)(type \<mapsto>
               foldl (\<lambda>S ownListener. if ownListener = l then set_delete l S else S)
                 listenerSet (set_values listenerSet))\<rparr>)"

section \<open>TodoListModel.js\<close>

text \<open>\<open>new TodoListModel(items)\<close>: a fresh \<open>#listeners\<close> map, \<open>#items\<close> is the given array.\<close>

definition new_TodoListModel :: "ref \<Rightarrow> world \<Rightarrow> world" where
  "new_TodoListModel a w = w\<lparr>listeners := Map.empty, items := a\<rparr>"

definition getTotalCount :: "world \<Rightarrow> nat" where
  "getTotalCount w = length (arrays w (items w))"

text \<open>\<open>getTodoItems\<close> returns \<open>this.#items\<close>, the reference held by the model.\<close>

definition getTodoItems :: "world \<Rightarrow> ref" where
  "getTodoItems w = items w"

definition onChange :: "listener \<Rightarrow> world \<Rightarrow> world" where
  "onChange l w = addEventListener ''change'' l w"

definition offChange :: "listener \<Rightarrow> world \<Rightarrow> world" where
  "offChange l w = removeEventListener ''change'' l w"

definition emitChange :: "world \<Rightarrow> world" where
  "emitChange w = emit ''change'' w"

definition addTodo :: "ref \<Rightarrow> world \<Rightarrow> world" where
  "addTodo todoItem w =
     (if isEmptyTitle (objects w todoItem) then w
      else emitChange (array_push (items w) todoItem w))"

definition updateTodo :: "nat \<Rightarrow> bool \<Rightarrow> world \<Rightarrow> world" where
  "updateTodo i c w =
     (case find (\<lambda>todo. id' (objects w todo) = i) (arrays w (items w)) of
        None \<Rightarrow> w
      | Some todoItem \<Rightarrow>
          emitChange (w\<lparr>objects := (objects w)(todoItem := (objects w todoItem)\<lparr>completed := c\<rparr>)\<rparr>))"

definition deleteTodo :: "nat \<Rightarrow> world \<Rightarrow> world" where
  "deleteTodo i w =
     (let (a, w') = new_array (filter (\<lambda>todo. id' (objects w todo) \<noteq> i) (arrays w (items w))) w
      in emitChange (w'\<lparr>items := a\<rparr>))"

section \<open>TodoItemView.js and TodoListView.js\<close>

text \<open>
  The markup that \<open>TodoItemView.createElement\<close> builds with \<open>element\<close>, with the
  line breaks and the indentation of the two template literals. The listeners that it
  attaches to the checkbox and to the delete button are not part of the model.
\<close>

definition TodoItemView_htmlString :: "TodoItemModel \<Rightarrow> js_error + string" where
  "TodoItemView_htmlString todoItem =
     (if completed todoItem
      then element_htmlString
             [''<li><input type=\"checkbox\" class=\"checkbox\" checked>\<newline>                                    <s>'',
              ''</s>\<newline>                                    <button class=\"delete\">x</button>\<newline>                                </li>'']
             [JString (title todoItem)]
      else element_htmlString
             [''<li><input type=\"checkbox\" class=\"checkbox\">\<newline>                                    '',
              ''\<newline>                                    <button class=\"delete\">x</button>\<newline>                                </li>'']
             [JString (title todoItem)])"

text \<open>
  \<open>TodoListView.createElement\<close>: the \<open>ul\<close> element and, in the order of
  \<open>todoItems.forEach\<close>, the children appended to it.
\<close>

definition TodoListView_createElement ::
    "TodoItemModel list \<Rightarrow> (js_error + string) \<times> (js_error + string) list" where
  "TodoListView_createElement todoItems =
     (element_htmlString [''<ul></ul>''] [], map TodoItemView_htmlString todoItems)"

section \<open>app.js\<close>

text \<open>
  The two arrow functions that \<open>mount\<close> and \<open>unmount\<close> register are instance fields,
  created once for an App.
\<close>

record App =
  handleChange :: listener
  handleSubmit :: listener

text \<open>
  The program before anything has run: \<open>let todoIdx = 0\<close>, nothing constructed, nobody
  registered, no listener called.
\<close>

definition empty_world :: world where
  "empty_world =
     \<lparr>todoIdx = 0,
      objects = (\<lambda>r. \<lparr>id' = 0, title = [], completed = False\<rparr>),
      nextObject = 0,
      arrays = (\<lambda>a. []),
      nextArray = 0,
      listeners = Map.empty,
      items = 0,
      formListeners = Map.empty,
      calls = [],
      seen = []\<rparr>"

text \<open>
  The field initialiser \<open>#todoListModel = new TodoListModel([])\<close> of a new App.
  \<open>#handleAdd\<close>, \<open>#handleUpdate\<close> and \<open>#handleDelete\<close> follow; \<open>#handleSubmit\<close>
  passes the text of the input field to \<open>#handleAdd\<close>, and the input field is not part
  of the model.
\<close>

definition new_App :: "world \<Rightarrow> world" where
  "new_App w = (let (a, w') = new_array [] w in new_TodoListModel a w')"

definition handleAdd :: "string \<Rightarrow> world \<Rightarrow> world" where
  "handleAdd t w = (let (todoItem, w') = new_TodoItemModel t False w in addTodo todoItem w')"

definition handleUpdate :: "nat \<Rightarrow> bool \<Rightarrow> world \<Rightarrow> world" where
  "handleUpdate i c w = updateTodo i c w"

definition handleDelete :: "nat \<Rightarrow> world \<Rightarrow> world" where
  "handleDelete i w = deleteTodo i w"

text \<open>
  \<open>formElement.addEventListener\<close> is the browser's: registering the same function for
  the same type twice keeps one registration.
\<close>

definition form_addEventListener :: "string \<Rightarrow> listener \<Rightarrow> world \<Rightarrow> world" where
  "form_addEventListener type l w =
     w\<lparr>formListeners := (formListeners w)(type \<mapsto>
          set_add l (case formListeners w type of None \<Rightarrow> set_new | Some S \<Rightarrow> S))\<rparr>"

definition form_removeEventListener :: "string \<Rightarrow> listener \<Rightarrow> world \<Rightarrow> world" where
  "form_removeEventListener type l w =
     (case formListeners w type of
        None \<Rightarrow> w
      | Some S \<Rightarrow> w\<lparr>formListeners := (formListeners w)(type \<mapsto> set_delete l S)\<rparr>)"

definition mount :: "App \<Rightarrow> world \<Rightarrow> world" where
  "mount app w = form_addEventListener ''submit'' (handleSubmit app) (onChange (handleChange app) w)"

definition unmount :: "App \<Rightarrow> world \<Rightarrow> world" where
  "unmount app w =
     form_removeEventListener ''submit'' (handleSubmit app) (offChange (handleChange app) w)"

section \<open>Notions used to state the properties\<close>

text \<open>The entity equivalent of a character, as the specification lists them.\<close>

definition html_entity :: "char \<Rightarrow> string" where
  "html_entity c =
     (if c = CHR ''&'' then ''&amp;''
      else if c = CHR ''<'' then ''&lt;''
      else if c = CHR ''>'' then ''&gt;''
      else if c = CHR 0x22 then ''&quot;''
      else if c = CHR 0x27 then ''&#039;''
      else [c])"

text \<open>What \<open>element\<close> puts into the markup for one interpolated value.\<close>

definition interpolated :: "js_value \<Rightarrow> string" where
  "interpolated v = (if typeof v = TString then escapeSpecialChars (str_of v) else js_String v)"

text \<open>The listeners registered for a type, in the order in which \<open>emit\<close> calls them.\<close>

definition subscribers :: "string \<Rightarrow> world \<Rightarrow> listener list" where
  "subscribers type w = (case listeners w type of None \<Rightarrow> [] | Some S \<Rightarrow> set_values S)"

text \<open>The container's sequence: the references in \<open>#items\<close>, and the entities they point to.\<close>

definition itemRefs :: "world \<Rightarrow> ref list" where
  "itemRefs w = arrays w (items w)"

definition entities :: "world \<Rightarrow> TodoItemModel list" where
  "entities w = map (objects w) (itemRefs w)"

text \<open>
  A caller that holds a reference to an array can change the array in place (\<open>push\<close>,
  \<open>pop\<close>, \<open>splice\<close>, assigning \<open>length\<close>); \<open>array_assign a xs\<close> is such a change
  that leaves \<open>xs\<close> as the elements of the array.
\<close>

definition array_assign :: "ref \<Rightarrow> ref list \<Rightarrow> world \<Rightarrow> world" where
  "array_assign a xs w = w\<lparr>arrays := (arrays w)(a := xs)\<rparr>"

text \<open>
  Sequences of operations: constructing an entity, the three mutations of the
  TodoListModel (which the App's \<open>#handleUpdate\<close> and \<open>#handleDelete\<close> pass on
  unchanged), and the App's \<open>#handleAdd\<close>, which constructs an entity and adds it.
\<close>

datatype operation =
    Construct string bool
  | is_AddTodo: AddTodo ref
  | is_UpdateTodo: UpdateTodo nat bool
  | is_DeleteTodo: DeleteTodo nat
  | HandleAdd string

fun perform :: "operation \<Rightarrow> world \<Rightarrow> world" where
  "perform (Construct t c) w = snd (new_TodoItemModel t c w)"
| "perform (AddTodo r) w = addTodo r w"
| "perform (UpdateTodo i c) w = handleUpdate i c w"
| "perform (DeleteTodo i) w = handleDelete i w"
| "perform (HandleAdd t) w = handleAdd t w"

fun run :: "operation list \<Rightarrow> world \<Rightarrow> world" where
  "run [] w = w"
| "run (op # ops) w = run ops (perform op w)"

fun deleted_ids :: "operation list \<Rightarrow> nat list" where
  "deleted_ids [] = []"
| "deleted_ids (DeleteTodo i # ops) = i # deleted_ids ops"
| "deleted_ids (op # ops) = deleted_ids ops"






section \<open>Escaping\<close>

lemma replace_all_append:
  "replace_all c rep (xs @ ys) = replace_all c rep xs @ replace_all c rep ys"
  by (simp add: replace_all_def)

lemma escapeSpecialChars_single: "escapeSpecialChars [c] = html_entity c"
  by (simp add: escapeSpecialChars_def replace_all_def html_entity_def)

lemma escapeSpecialChars_append:
  "escapeSpecialChars (xs @ ys) = escapeSpecialChars xs @ escapeSpecialChars ys"
  by (simp add: escapeSpecialChars_def replace_all_append)

text \<open>
  The five replacements one after the other amount to replacing every character by its
  entity: the ampersand goes first, and no later replacement looks for a character that
  an earlier one produced.
\<close>

lemma escapeSpecialChars_entities: "escapeSpecialChars t = concat (map html_entity t)"
proof (induction t)
  case Nil
  show ?case by (simp add: escapeSpecialChars_def replace_all_def)
next
  case (Cons c t)
  have "escapeSpecialChars (c # t) = escapeSpecialChars ([c] @ t)" by simp
  also have "\<dots> = html_entity c @ escapeSpecialChars t"
    unfolding escapeSpecialChars_append escapeSpecialChars_single ..
  finally show ?case using Cons by simp
qed

lemma html_entity_no_markup:
  "set (html_entity c) \<inter> {CHR ''<'', CHR ''>'', CHR 0x22, CHR 0x27} = {}"
  by (simp add: html_entity_def)

lemma escapeSpecialChars_no_markup:
  "set (escapeSpecialChars t) \<inter> {CHR ''<'', CHR ''>'', CHR 0x22, CHR 0x27} = {}"
  unfolding escapeSpecialChars_entities using html_entity_no_markup by (induction t) auto

lemma less_than_not_in_escaped: "CHR ''<'' \<notin> set (escapeSpecialChars t)"
  using escapeSpecialChars_no_markup [of t] by auto

text \<open>A text that starts with a character absent from \<open>es\<close> cannot begin inside \<open>es\<close>.\<close>

lemma sublist_skip:
  "c \<notin> set es \<Longrightarrow> sublist (c # q) (es @ bs) \<longleftrightarrow> sublist (c # q) bs"
  by (induction es) (auto simp: sublist_Cons_right)

lemma element_callback_Suc:
  "element_callback vs result str (Suc i) = result @ interpolated (array_get vs i) @ str"
  by (simp add: element_callback_def interpolated_def)

lemma reduce_loop_eq:
  "reduce_loop vs result (Suc i) strs =
     result @ concat (map (\<lambda>k. interpolated (array_get vs (i + k)) @ strs ! k) [0..<length strs])"
proof (induction strs arbitrary: result i)
  case Nil
  show ?case by simp
next
  case (Cons s strs)
  have shift: "[0..<length (s # strs)] = 0 # map Suc [0..<length strs]"
    by (simp add: upt_conv_Cons map_Suc_upt del: upt_Suc)
  show ?case
    unfolding shift by (simp add: Cons.IH element_callback_Suc comp_def)
qed

lemma element_htmlString_eq:
  "element_htmlString (s0 # rest) vs =
     Inr (s0 @ concat (map (\<lambda>k. interpolated (array_get vs k) @ rest ! k) [0..<length rest]))"
  using reduce_loop_eq [of vs s0 0 rest] by (simp add: element_htmlString_def)

lemma upt_split_at: "k < n \<Longrightarrow> [0..<n] = [0..<k] @ k # [Suc k..<n]"
  by (metis less_imp_le_nat upt_add_eq_append upt_conv_Cons le0 le_add_diff_inverse)

lemma TodoItemView_htmlString_eq:
  "TodoItemView_htmlString todoItem =
     (if completed todoItem
      then Inr (''<li><input type=\"checkbox\" class=\"checkbox\" checked>\<newline>                                    <s>''
             @ escapeSpecialChars (title todoItem)
             @ ''</s>\<newline>                                    <button class=\"delete\">x</button>\<newline>                                </li>'')
      else Inr (''<li><input type=\"checkbox\" class=\"checkbox\">\<newline>                                    ''
             @ escapeSpecialChars (title todoItem)
             @ ''\<newline>                                    <button class=\"delete\">x</button>\<newline>                                </li>''))"
  by (simp add: TodoItemView_htmlString_def element_htmlString_eq interpolated_def array_get_def)

text \<open>
  C1. A string value at any position \<open>k\<close> of a template goes into the markup with each
  of its characters replaced by the character's entity, between the pieces that the
  other positions produce; the escaped text contains none of \<open><\<close>, \<open>>\<close>, \<open>"\<close>, \<open>'\<close>.
  For the title \<open><script>alert(1)</script>\<close> the markup of the item view, completed
  or not, holds \<open>&lt;script&gt;alert(1)&lt;/script&gt;\<close> between the two pieces of the
  template. Whatever the title, the markup of the item view nowhere contains the text
  \<open><script>\<close>.
\<close>

theorem element_escapes_string_values:
  "(k < length rest \<and> array_get vs k = JString t \<longrightarrow>
      element_htmlString (s0 # rest) vs =
        Inr (s0 @ concat (map (\<lambda>j. interpolated (array_get vs j) @ rest ! j) [0..<k])
             @ concat (map html_entity t) @ rest ! k
             @ concat (map (\<lambda>j. interpolated (array_get vs j) @ rest ! j) [Suc k..<length rest])))
   \<and> escapeSpecialChars t = concat (map html_entity t)
   \<and> set (escapeSpecialChars t) \<inter> {CHR ''<'', CHR ''>'', CHR 0x22, CHR 0x27} = {}
   \<and> TodoItemView_htmlString \<lparr>id' = i, title = ''<script>alert(1)</script>'', completed = False\<rparr>
       = Inr (''<li><input type=\"checkbox\" class=\"checkbox\">\<newline>                                    ''
              @ ''&lt;script&gt;alert(1)&lt;/script&gt;''
              @ ''\<newline>                                    <button class=\"delete\">x</button>\<newline>                                </li>'')
   \<and> TodoItemView_htmlString \<lparr>id' = i, title = ''<script>alert(1)</script>'', completed = True\<rparr>
       = Inr (''<li><input type=\"checkbox\" class=\"checkbox\" checked>\<newline>                                    <s>''
              @ ''&lt;script&gt;alert(1)&lt;/script&gt;''
              @ ''</s>\<newline>                                    <button class=\"delete\">x</button>\<newline>                                </li>'')
   \<and> \<not> sublist ''<script>'' (projr (TodoItemView_htmlString todoItem))"
proof -
  have pos: "element_htmlString (s0 # rest) vs =
        Inr (s0 @ concat (map (\<lambda>j. interpolated (array_get vs j) @ rest ! j) [0..<k])
             @ concat (map html_entity t) @ rest ! k
             @ concat (map (\<lambda>j. interpolated (array_get vs j) @ rest ! j) [Suc k..<length rest]))"
    if "k < length rest" "array_get vs k = JString t"
    using that
    by (simp add: element_htmlString_eq upt_split_at [of k "length rest"] interpolated_def
        escapeSpecialChars_entities)
  have esc: "escapeSpecialChars ''<script>alert(1)</script>'' = ''&lt;script&gt;alert(1)&lt;/script&gt;''"
    by (simp add: escapeSpecialChars_def replace_all_def)
  have no: "\<not> sublist ''<script>'' (projr (TodoItemView_htmlString todoItem))"
    by (simp add: TodoItemView_htmlString_eq sublist_Cons_right
        sublist_skip [OF less_than_not_in_escaped])
  show ?thesis
    using pos no by (simp add: escapeSpecialChars_entities [symmetric] escapeSpecialChars_no_markup
        TodoItemView_htmlString_eq esc)
qed

theorem element_escapes_string_values_witness:
  "0 < length [''</b>''] \<and> array_get [JString ''a<b&c''] 0 = JString ''a<b&c''
   \<and> element_htmlString [''<b>'', ''</b>''] [JString ''a<b&c''] = Inr ''<b>a&lt;b&amp;c</b>''"
  using element_escapes_string_values [of 0 "[''</b>'']" "[JString ''a<b&c'']" "''a<b&c''" "''<b>''"]
  by (simp add: array_get_def html_entity_def)

text \<open>
  C9. At every position of a template the value is escaped exactly when \<open>typeof\<close> says
  it is a string; any other value goes in as \<open>String\<close> prints it. So the array
  \<open>["<script>"]\<close>, which is not a string, puts the text \<open><script>\<close> into the markup,
  where the string \<open>"<script>"\<close> would have been escaped.
\<close>

theorem element_escapes_only_strings:
  "element_htmlString (s0 # rest) vs =
     Inr (s0 @ concat (map (\<lambda>k. (if typeof (array_get vs k) = TString
                                  then escapeSpecialChars (str_of (array_get vs k))
                                  else js_String (array_get vs k)) @ rest ! k) [0..<length rest]))
   \<and> element_htmlString [pre, post] [v] =
       Inr (pre @ (if typeof v = TString then escapeSpecialChars (str_of v) else js_String v) @ post)
   \<and> element_htmlString [''<p>'', ''</p>''] [JArray [JString ''<script>'']] = Inr ''<p><script></p>''
   \<and> element_htmlString [''<p>'', ''</p>''] [JString ''<script>''] = Inr ''<p>&lt;script&gt;</p>''
   \<and> element_htmlString [''<p>'', ''</p>''] [JNumber 42] = Inr ''<p>42</p>''
   \<and> element_htmlString [''<p>'', ''</p>''] [JBoolean True] = Inr ''<p>true</p>''
   \<and> element_htmlString [''<p>'', ''</p>''] [JUndefined] = Inr ''<p>undefined</p>''
   \<and> element_htmlString [''<p>'', ''</p>''] [JObject] = Inr ''<p>[object Object]</p>''"
proof -
  have general: "element_htmlString (s0 # rest) vs =
     Inr (s0 @ concat (map (\<lambda>k. (if typeof (array_get vs k) = TString
                                  then escapeSpecialChars (str_of (array_get vs k))
                                  else js_String (array_get vs k)) @ rest ! k) [0..<length rest]))"
    for s0 rest vs
    using element_htmlString_eq [of s0 rest vs] by (simp add: interpolated_def)
  have esc: "escapeSpecialChars ''<script>'' = ''&lt;script&gt;''"
    by (simp add: escapeSpecialChars_def replace_all_def)
  show ?thesis
    by (simp add: general array_get_def esc)
qed

section \<open>The event emitter\<close>

lemma foldl_call:
  "foldl (\<lambda>w' l. call l w') w ls =
     w\<lparr>calls := calls w @ ls, seen := seen w @ replicate (length ls) (entities w)\<rparr>"
  by (induction ls arbitrary: w) (simp_all add: call_def entities_def itemRefs_def replicate_app_Cons_same)

lemma emit_eq:
  "emit type w =
     w\<lparr>calls := calls w @ subscribers type w,
       seen := seen w @ replicate (length (subscribers type w)) (entities w)\<rparr>"
  by (simp add: emit_def subscribers_def foldl_call split: option.split)

lemma set_delete_absent: "l \<notin> set (set_values S) \<Longrightarrow> set_delete l S = S"
  by transfer simp

lemma set_delete_idem: "set_delete l (set_delete l S) = set_delete l S"
  by transfer simp

lemma remove_loop:
  "foldl (\<lambda>S own. if own = l then set_delete l S else S) S xs =
     (if l \<in> set xs then set_delete l S else S)"
  by (induction xs arbitrary: S) (auto simp: set_delete_idem)

lemma removeEventListener_eq:
  "removeEventListener type l w =
     (case listeners w type of None \<Rightarrow> w
      | Some S \<Rightarrow> w\<lparr>listeners := (listeners w)(type \<mapsto> set_delete l S)\<rparr>)"
  by (auto simp: removeEventListener_def remove_loop set_delete_absent split: option.split)

lemma removeEventListener_absent:
  "l \<notin> set (subscribers type w) \<Longrightarrow> removeEventListener type l w = w"
  by (auto simp: removeEventListener_eq subscribers_def set_delete_absent map_upd_triv split: option.splits)

lemma set_add_idem: "set_add l (set_add l S) = set_add l S"
  by transfer simp

lemma addEventListener_idem:
  "addEventListener type l (addEventListener type l w) = addEventListener type l w"
  by (simp add: addEventListener_def set_add_idem)

lemma count_list_distinct: "distinct xs \<Longrightarrow> count_list xs l = (if l \<in> set xs then 1 else 0)"
  by (induction xs) auto

lemma count_set_values: "count_list (set_values S) l = (if l \<in> set (set_values S) then 1 else 0)"
  using set_values [of S] by (simp add: count_list_distinct)

lemma subscribers_add:
  "subscribers type (addEventListener type l w) =
     (if l \<in> set (subscribers type w) then subscribers type w else subscribers type w @ [l])"
  by (auto simp: subscribers_def addEventListener_def set_add.rep_eq set_new.rep_eq split: option.splits)

lemma count_subscribers: "count_list (subscribers type w) l = (if l \<in> set (subscribers type w) then 1 else 0)"
  by (simp add: subscribers_def count_set_values split: option.split)

text \<open>
  C8. Registering the same listener for the same type a second time changes nothing, so
  an \<open>emit\<close> of the type after it calls every registered listener, this one included,
  exactly once. Removing a listener that is not registered for the type (the type may
  have no set at all) returns the state as it was; no path of \<open>removeEventListener\<close>
  throws.
\<close>

theorem addEventListener_idempotent:
  "addEventListener type l (addEventListener type l w) = addEventListener type l w
   \<and> calls (emit type (addEventListener type l (addEventListener type l w)))
       = calls w @ subscribers type (addEventListener type l w)
   \<and> count_list (subscribers type (addEventListener type l w)) l = 1
   \<and> (l \<notin> set (subscribers type w) \<longrightarrow> removeEventListener type l w = w)"
  by (simp add: addEventListener_idem emit_eq count_subscribers subscribers_add removeEventListener_absent)
    (simp add: addEventListener_def)

theorem addEventListener_idempotent_witness:
  "(7::nat) \<notin> set (subscribers ''change'' (addEventListener ''change'' 3 empty_world))
   \<and> removeEventListener ''change'' 7 (addEventListener ''change'' 3 empty_world)
       = addEventListener ''change'' 3 empty_world"
  using addEventListener_idempotent [of "''change''" 7 "addEventListener ''change'' 3 empty_world"]
  by (simp add: subscribers_def addEventListener_def empty_world_def set_add.rep_eq set_new.rep_eq)

section \<open>The container\<close>

lemma emitChange_eq:
  "emitChange w =
     w\<lparr>calls := calls w @ subscribers ''change'' w,
       seen := seen w @ replicate (length (subscribers ''change'' w)) (entities w)\<rparr>"
  by (simp add: emitChange_def emit_eq)

lemma distinct_subscribers: "distinct (subscribers type w)"
  using set_values by (auto simp: subscribers_def split: option.split)

lemma addTodo_eq:
  "addTodo r w =
     (if title (objects w r) = [] then w
      else w\<lparr>arrays := (arrays w)(items w := itemRefs w @ [r]),
             calls := calls w @ subscribers ''change'' w,
             seen := seen w @ replicate (length (subscribers ''change'' w))
                       (entities w @ [objects w r])\<rparr>)"
  by (simp add: addTodo_def isEmptyTitle_def emitChange_eq array_push_def itemRefs_def subscribers_def
      entities_def)

lemma deleteTodo_eq:
  "deleteTodo i w =
     w\<lparr>arrays := (arrays w)(nextArray w := filter (\<lambda>r. id' (objects w r) \<noteq> i) (itemRefs w)),
       nextArray := Suc (nextArray w),
       items := nextArray w,
       calls := calls w @ subscribers ''change'' w,
       seen := seen w @ replicate (length (subscribers ''change'' w))
                 (filter (\<lambda>e. id' e \<noteq> i) (entities w))\<rparr>"
  by (simp add: deleteTodo_def new_array_def Let_def emitChange_eq itemRefs_def subscribers_def
      entities_def filter_map comp_def)

lemma updateTodo_eq:
  "updateTodo i c w =
     (case find (\<lambda>r. id' (objects w r) = i) (itemRefs w) of
        None \<Rightarrow> w
      | Some r \<Rightarrow> w\<lparr>objects := (objects w)(r := (objects w r)\<lparr>completed := c\<rparr>),
                    calls := calls w @ subscribers ''change'' w,
                    seen := seen w @ replicate (length (subscribers ''change'' w))
                              (map ((objects w)(r := (objects w r)\<lparr>completed := c\<rparr>))
                                 (itemRefs w))\<rparr>)"
  by (simp add: updateTodo_def emitChange_eq itemRefs_def subscribers_def entities_def
      split: option.split)

lemma id_updateTodo: "id' (objects (updateTodo i c w) r) = id' (objects w r)"
  by (simp add: updateTodo_eq split: option.split)

lemma title_updateTodo: "title (objects (updateTodo i c w) r) = title (objects w r)"
  by (simp add: updateTodo_eq split: option.split)

lemma itemRefs_updateTodo: "itemRefs (updateTodo i c w) = itemRefs w"
  by (simp add: updateTodo_eq itemRefs_def split: option.split)

lemma itemRefs_deleteTodo:
  "itemRefs (deleteTodo i w) = filter (\<lambda>r. id' (objects w r) \<noteq> i) (itemRefs w)"
  by (simp add: deleteTodo_eq itemRefs_def)

lemma objects_deleteTodo: "objects (deleteTodo i w) = objects w"
  by (simp add: deleteTodo_eq)

lemma new_TodoItemModel_eq:
  "new_TodoItemModel t c w =
     (nextObject w,
      w\<lparr>objects := (objects w)(nextObject w := \<lparr>id' = todoIdx w, title = t, completed = c\<rparr>),
        nextObject := Suc (nextObject w), todoIdx := increment (todoIdx w)\<rparr>)"
  by (simp add: new_TodoItemModel_def Let_def)

lemma handleAdd_eq:
  "handleAdd t w = addTodo (nextObject w) (snd (new_TodoItemModel t False w))"
  by (simp add: handleAdd_def new_TodoItemModel_eq)


























lemmas world_simps =
  handleAdd_eq new_TodoItemModel_eq addTodo_eq handleDelete_def deleteTodo_eq handleUpdate_def
  updateTodo_eq new_App_def new_array_def new_TodoListModel_def empty_world_def entities_def
  itemRefs_def subscribers_def onChange_def addEventListener_def set_add.rep_eq set_new.rep_eq
  getTotalCount_def increment_def counter_limit_def

text \<open>
  C2. When the entity's title is not empty, \<open>addTodo\<close> puts the entity at the end of
  the sequence, the count grows by one, and the listeners subscribed to \<open>change\<close> are
  called, each once and no other. When the title is empty the state stays as it was:
  same sequence, same count, no listener called. A title of three spaces is accepted:
  the App's add on a new container with one subscriber leaves that entity in the
  container and the subscriber called once; with the empty title the count stays 0 and
  nobody is called.
\<close>

theorem addTodo_appends_unless_title_empty:
  "(title (objects w r) \<noteq> [] \<longrightarrow>
      itemRefs (addTodo r w) = itemRefs w @ [r]
      \<and> entities (addTodo r w) = entities w @ [objects w r]
      \<and> getTotalCount (addTodo r w) = Suc (getTotalCount w)
      \<and> calls (addTodo r w) = calls w @ subscribers ''change'' w
      \<and> distinct (subscribers ''change'' w))
   \<and> (title (objects w r) = [] \<longrightarrow> addTodo r w = w)
   \<and> map title (entities (handleAdd ''   '' (onChange h (new_App empty_world)))) = [''   '']
   \<and> calls (handleAdd ''   '' (onChange h (new_App empty_world))) = [h]
   \<and> getTotalCount (handleAdd [] (onChange h (new_App empty_world))) = 0
   \<and> calls (handleAdd [] (onChange h (new_App empty_world))) = []"
proof -
  have a: "map title (entities (handleAdd ''   '' (onChange h (new_App empty_world)))) = [''   '']
     \<and> calls (handleAdd ''   '' (onChange h (new_App empty_world))) = [h]"
    by (simp add: handleAdd_def new_TodoItemModel_def Let_def addTodo_eq onChange_def
        addEventListener_def new_App_def new_array_def new_TodoListModel_def empty_world_def
        subscribers_def entities_def itemRefs_def set_add.rep_eq set_new.rep_eq)
  have b: "getTotalCount (handleAdd [] (onChange h (new_App empty_world))) = 0
     \<and> calls (handleAdd [] (onChange h (new_App empty_world))) = []"
    by (simp add: handleAdd_def new_TodoItemModel_def Let_def addTodo_eq onChange_def
        addEventListener_def new_App_def new_array_def new_TodoListModel_def empty_world_def
        getTotalCount_def)
  show ?thesis
    using a b by (simp add: addTodo_eq distinct_subscribers entities_def itemRefs_def getTotalCount_def)
qed

theorem addTodo_appends_unless_title_empty_witness:
  "title (objects (snd (new_TodoItemModel ''Buy milk'' False (onChange 5 (new_App empty_world)))) 0) \<noteq> []
   \<and> itemRefs (addTodo 0 (snd (new_TodoItemModel ''Buy milk'' False (onChange 5 (new_App empty_world))))) = [0]
   \<and> calls (addTodo 0 (snd (new_TodoItemModel ''Buy milk'' False (onChange 5 (new_App empty_world))))) = [5]
   \<and> title (objects (snd (new_TodoItemModel [] False (onChange 5 (new_App empty_world)))) 0) = []
   \<and> addTodo 0 (snd (new_TodoItemModel [] False (onChange 5 (new_App empty_world))))
       = snd (new_TodoItemModel [] False (onChange 5 (new_App empty_world)))"
  using addTodo_appends_unless_title_empty
      [of "snd (new_TodoItemModel ''Buy milk'' False (onChange 5 (new_App empty_world)))" 0]
    addTodo_appends_unless_title_empty
      [of "snd (new_TodoItemModel [] False (onChange 5 (new_App empty_world)))" 0]
  by (simp add: new_TodoItemModel_eq new_App_def new_array_def new_TodoListModel_def empty_world_def
      itemRefs_def subscribers_def onChange_def addEventListener_def set_add.rep_eq set_new.rep_eq)

text \<open>
  C3. \<open>deleteTodo\<close> leaves in the container the entities whose id differs from the
  given one, in their order, and changes no entity. The sequence is a new array: the
  array that the model used before keeps its elements. Then, whether or not an entity
  was removed, the listeners subscribed to \<open>change\<close> are called, each once, and each
  of them finds the model with the new sequence. On a new, empty container with one
  subscriber, deleting id 999 leaves the count at 0 and calls the subscriber once, on
  the empty sequence.
\<close>

theorem deleteTodo_filters_and_always_notifies:
  "itemRefs (deleteTodo i w) = filter (\<lambda>r. id' (objects w r) \<noteq> i) (itemRefs w)
   \<and> entities (deleteTodo i w) = filter (\<lambda>e. id' e \<noteq> i) (entities w)
   \<and> objects (deleteTodo i w) = objects w
   \<and> (items w < nextArray w \<longrightarrow>
        items (deleteTodo i w) \<noteq> items w \<and> arrays (deleteTodo i w) (items w) = arrays w (items w))
   \<and> calls (deleteTodo i w) = calls w @ subscribers ''change'' w
   \<and> distinct (subscribers ''change'' w)
   \<and> seen (deleteTodo i w)
       = seen w @ replicate (length (subscribers ''change'' w)) (filter (\<lambda>e. id' e \<noteq> i) (entities w))
   \<and> getTotalCount (new_App empty_world) = 0
   \<and> getTotalCount (deleteTodo 999 (onChange h (new_App empty_world))) = 0
   \<and> calls (deleteTodo 999 (onChange h (new_App empty_world))) = [h]
   \<and> seen (deleteTodo 999 (onChange h (new_App empty_world))) = [[]]"
proof -
  have c: "getTotalCount (new_App empty_world) = 0
   \<and> getTotalCount (deleteTodo 999 (onChange h (new_App empty_world))) = 0
   \<and> calls (deleteTodo 999 (onChange h (new_App empty_world))) = [h]
   \<and> seen (deleteTodo 999 (onChange h (new_App empty_world))) = [[]]"
    by (simp add: deleteTodo_eq onChange_def addEventListener_def new_App_def new_array_def
        new_TodoListModel_def empty_world_def getTotalCount_def itemRefs_def subscribers_def
        entities_def set_add.rep_eq set_new.rep_eq)
  have g: "itemRefs (deleteTodo i w) = filter (\<lambda>r. id' (objects w r) \<noteq> i) (itemRefs w)
   \<and> entities (deleteTodo i w) = filter (\<lambda>e. id' e \<noteq> i) (entities w)
   \<and> objects (deleteTodo i w) = objects w
   \<and> calls (deleteTodo i w) = calls w @ subscribers ''change'' w
   \<and> seen (deleteTodo i w)
       = seen w @ replicate (length (subscribers ''change'' w)) (filter (\<lambda>e. id' e \<noteq> i) (entities w))"
    by (simp add: deleteTodo_eq entities_def itemRefs_def filter_map comp_def)
  have n: "items (deleteTodo i w) \<noteq> items w \<and> arrays (deleteTodo i w) (items w) = arrays w (items w)"
    if "items w < nextArray w"
    using that by (simp add: deleteTodo_eq)
  show ?thesis
    using g n c distinct_subscribers by blast
qed

theorem deleteTodo_filters_and_always_notifies_witness:
  "items (run [HandleAdd ''A'', HandleAdd ''B''] (onChange 5 (new_App empty_world)))
     < nextArray (run [HandleAdd ''A'', HandleAdd ''B''] (onChange 5 (new_App empty_world)))
   \<and> map title (entities (deleteTodo 0
        (run [HandleAdd ''A'', HandleAdd ''B''] (onChange 5 (new_App empty_world))))) = [''B'']
   \<and> map id' (entities (deleteTodo 0
        (run [HandleAdd ''A'', HandleAdd ''B''] (onChange 5 (new_App empty_world))))) = [1]
   \<and> arrays (deleteTodo 0 (run [HandleAdd ''A'', HandleAdd ''B''] (onChange 5 (new_App empty_world))))
        (items (run [HandleAdd ''A'', HandleAdd ''B''] (onChange 5 (new_App empty_world)))) = [0, 1]
   \<and> calls (deleteTodo 0
        (run [HandleAdd ''A'', HandleAdd ''B''] (onChange 5 (new_App empty_world)))) = [5, 5, 5]
   \<and> map (map title) (seen (deleteTodo 0
        (run [HandleAdd ''A'', HandleAdd ''B''] (onChange 5 (new_App empty_world)))))
       = [[''A''], [''A'', ''B''], [''B'']]"
  using deleteTodo_filters_and_always_notifies
      [of 0 "run [HandleAdd ''A'', HandleAdd ''B''] (onChange 5 (new_App empty_world))"]
  by (simp add: world_simps)

text \<open>
  C4. When no entity of the container has the given id, \<open>updateTodo\<close> returns the state
  as it was (no entity changed, no listener called). Otherwise there is a first position
  \<open>k\<close> of the sequence with that id: the entity there gets the given \<open>completed\<close>,
  every other entity is as before, no id and no title changes, the sequence is the same,
  and the listeners subscribed to \<open>change\<close> are called, each once.
\<close>

theorem updateTodo_first_match_or_noop:
  "(i \<notin> set (map id' (entities w)) \<longrightarrow> updateTodo i c w = w)
   \<and> (i \<in> set (map id' (entities w)) \<longrightarrow>
        (\<exists>k < length (itemRefs w).
           id' (objects w (itemRefs w ! k)) = i
           \<and> (\<forall>j < k. id' (objects w (itemRefs w ! j)) \<noteq> i)
           \<and> objects (updateTodo i c w) (itemRefs w ! k) = (objects w (itemRefs w ! k))\<lparr>completed := c\<rparr>
           \<and> (\<forall>r. r \<noteq> itemRefs w ! k \<longrightarrow> objects (updateTodo i c w) r = objects w r)
           \<and> (\<forall>r. id' (objects (updateTodo i c w) r) = id' (objects w r)
                  \<and> title (objects (updateTodo i c w) r) = title (objects w r))
           \<and> itemRefs (updateTodo i c w) = itemRefs w
           \<and> calls (updateTodo i c w) = calls w @ subscribers ''change'' w
           \<and> distinct (subscribers ''change'' w)))"
proof (intro conjI impI)
  assume "i \<notin> set (map id' (entities w))"
  then have "find (\<lambda>r. id' (objects w r) = i) (itemRefs w) = None"
    by (auto simp: find_None_iff entities_def)
  then show "updateTodo i c w = w"
    by (simp add: updateTodo_eq)
next
  assume "i \<in> set (map id' (entities w))"
  then obtain r where r: "find (\<lambda>r. id' (objects w r) = i) (itemRefs w) = Some r"
    by (cases "find (\<lambda>r. id' (objects w r) = i) (itemRefs w)")
      (auto simp: find_None_iff entities_def)
  then obtain k where k: "k < length (itemRefs w)" "id' (objects w (itemRefs w ! k)) = i"
      "r = itemRefs w ! k" "\<forall>j < k. id' (objects w (itemRefs w ! j)) \<noteq> i"
    by (auto simp: find_Some_iff)
  have "objects (updateTodo i c w) = (objects w)(r := (objects w r)\<lparr>completed := c\<rparr>)"
    and "calls (updateTodo i c w) = calls w @ subscribers ''change'' w"
    using r by (simp_all add: updateTodo_eq)
  with k show "\<exists>k < length (itemRefs w).
           id' (objects w (itemRefs w ! k)) = i
           \<and> (\<forall>j < k. id' (objects w (itemRefs w ! j)) \<noteq> i)
           \<and> objects (updateTodo i c w) (itemRefs w ! k) = (objects w (itemRefs w ! k))\<lparr>completed := c\<rparr>
           \<and> (\<forall>r. r \<noteq> itemRefs w ! k \<longrightarrow> objects (updateTodo i c w) r = objects w r)
           \<and> (\<forall>r. id' (objects (updateTodo i c w) r) = id' (objects w r)
                  \<and> title (objects (updateTodo i c w) r) = title (objects w r))
           \<and> itemRefs (updateTodo i c w) = itemRefs w
           \<and> calls (updateTodo i c w) = calls w @ subscribers ''change'' w
           \<and> distinct (subscribers ''change'' w)"
    by (intro exI [of _ k]) (simp add: id_updateTodo title_updateTodo itemRefs_updateTodo distinct_subscribers)
qed

theorem updateTodo_first_match_or_noop_witness:
  "1 \<in> set (map id' (entities (run [HandleAdd ''a'', HandleAdd ''b''] (new_App empty_world))))
   \<and> map completed (entities (updateTodo 1 True (run [HandleAdd ''a'', HandleAdd ''b''] (new_App empty_world))))
       = [False, True]
   \<and> 7 \<notin> set (map id' (entities (run [HandleAdd ''a'', HandleAdd ''b''] (new_App empty_world))))
   \<and> updateTodo 7 True (run [HandleAdd ''a'', HandleAdd ''b''] (new_App empty_world))
       = run [HandleAdd ''a'', HandleAdd ''b''] (new_App empty_world)"
  using updateTodo_first_match_or_noop
      [of 1 "run [HandleAdd ''a'', HandleAdd ''b''] (new_App empty_world)" True]
    updateTodo_first_match_or_noop
      [of 7 "run [HandleAdd ''a'', HandleAdd ''b''] (new_App empty_world)" True]
  by (simp add: world_simps)

text \<open>
  C7, as stated, fails: \<open>getTodoItems\<close> hands out the array that the model itself
  uses. After a caller pushes onto the returned array, \<open>getTotalCount\<close> is 1 where it
  was 0.
\<close>

theorem getTodoItems_not_a_copy_counterexample:
  "getTotalCount (array_push (getTodoItems (snd (new_TodoItemModel ''x'' False (new_App empty_world)))) 0
      (snd (new_TodoItemModel ''x'' False (new_App empty_world))))
   \<noteq> getTotalCount (snd (new_TodoItemModel ''x'' False (new_App empty_world)))"
  by (simp add: getTotalCount_def array_push_def getTodoItems_def new_TodoItemModel_def Let_def
      new_App_def new_array_def new_TodoListModel_def empty_world_def)

text \<open>Only \<open>deleteTodo\<close> gives the model another array, and that array is a new one.\<close>

lemma items_perform: "\<not> is_DeleteTodo op \<Longrightarrow> items (perform op w) = items w"
  by (cases op)
    (simp_all add: new_TodoItemModel_eq addTodo_eq handleUpdate_def updateTodo_eq handleAdd_eq
      split: option.split)

lemma nextArray_perform: "\<not> is_DeleteTodo op \<Longrightarrow> nextArray (perform op w) = nextArray w"
  by (cases op)
    (simp_all add: new_TodoItemModel_eq addTodo_eq handleUpdate_def updateTodo_eq handleAdd_eq
      split: option.split)

lemma items_run_no_delete:
  "\<forall>op \<in> set ops. \<not> is_DeleteTodo op \<Longrightarrow> items (run ops w) = items w"
  by (induction ops arbitrary: w) (simp_all add: items_perform)

lemma perform_stays_new:
  "b \<le> items w \<Longrightarrow> items w < nextArray w \<Longrightarrow>
   b \<le> items (perform op w) \<and> items (perform op w) < nextArray (perform op w)"
  by (cases op)
    (simp_all add: new_TodoItemModel_eq addTodo_eq handleUpdate_def updateTodo_eq handleAdd_eq
      handleDelete_def deleteTodo_eq split: option.split)

lemma run_stays_new:
  "b \<le> items w \<Longrightarrow> items w < nextArray w \<Longrightarrow> b \<le> items (run ops w)"
proof (induction ops arbitrary: w)
  case Nil
  then show ?case by simp
next
  case (Cons op ops)
  from perform_stays_new [OF Cons.prems, of op] show ?case
    by (simp add: Cons.IH)
qed

lemma items_run_delete:
  "items w < nextArray w \<Longrightarrow> \<exists>op \<in> set ops. is_DeleteTodo op \<Longrightarrow> nextArray w \<le> items (run ops w)"
proof (induction ops arbitrary: w)
  case Nil
  then show ?case by simp
next
  case (Cons op ops)
  show ?case
  proof (cases "is_DeleteTodo op")
    case True
    then obtain i where op: "op = DeleteTodo i" by (cases op) simp_all
    have "nextArray w \<le> items (perform op w)" "items (perform op w) < nextArray (perform op w)"
      by (simp_all add: op handleDelete_def deleteTodo_eq)
    then show ?thesis using run_stays_new [of "nextArray w" "perform op w" ops] by simp
  next
    case False
    then have "items (perform op w) < nextArray (perform op w)" "\<exists>op \<in> set ops. is_DeleteTodo op"
      using Cons.prems by (simp_all add: items_perform nextArray_perform)
    from Cons.IH [OF this] show ?thesis using False by (simp add: nextArray_perform)
  qed
qed

text \<open>
  C7, amended. \<open>getTodoItems\<close> returns the model's own \<open>#items\<close> array. A push onto
  the returned array is seen by the model: the sequence has the new element at its end
  and the count is one more, while \<open>getTodoItems\<close> still returns the same array, no
  listener is called and none learns of it. A change of an array is the model's sequence
  afterwards exactly when the array is the one that the model uses at that moment. For
  the array that \<open>getTodoItems\<close> returned in \<open>w\<close> this is so after any operations
  without a \<open>deleteTodo\<close>; after operations with a \<open>deleteTodo\<close> the model uses a new
  array, and what a caller does to the returned one no longer reaches the model (here the
  array of \<open>w\<close> is one that was created before, as in every state the program reaches).
\<close>

theorem getTodoItems_returns_internal_array:
  "getTodoItems w = items w
   \<and> itemRefs (array_push (getTodoItems w) r w) = itemRefs w @ [r]
   \<and> getTotalCount (array_push (getTodoItems w) r w) = Suc (getTotalCount w)
   \<and> getTodoItems (array_push (getTodoItems w) r w) = getTodoItems w
   \<and> calls (array_push (getTodoItems w) r w) = calls w
   \<and> seen (array_push (getTodoItems w) r w) = seen w
   \<and> itemRefs (array_assign (getTodoItems w) xs w) = xs
   \<and> getTotalCount (array_assign (getTodoItems w) xs w) = length xs
   \<and> itemRefs (array_assign a xs w') = (if a = getTodoItems w' then xs else itemRefs w')
   \<and> itemRefs (array_push a r w') = (if a = getTodoItems w' then itemRefs w' @ [r] else itemRefs w')
   \<and> ((\<forall>op \<in> set ops. \<not> is_DeleteTodo op) \<longrightarrow>
        getTodoItems (run ops w) = getTodoItems w
        \<and> itemRefs (array_assign (getTodoItems w) xs (run ops w)) = xs
        \<and> getTotalCount (array_assign (getTodoItems w) xs (run ops w)) = length xs
        \<and> itemRefs (array_push (getTodoItems w) r (run ops w)) = itemRefs (run ops w) @ [r]
        \<and> getTotalCount (array_push (getTodoItems w) r (run ops w)) = Suc (getTotalCount (run ops w)))
   \<and> (items w < nextArray w \<and> (\<exists>op \<in> set ops. is_DeleteTodo op) \<longrightarrow>
        getTodoItems (run ops w) \<noteq> getTodoItems w
        \<and> itemRefs (array_assign (getTodoItems w) xs (run ops w)) = itemRefs (run ops w)
        \<and> getTotalCount (array_assign (getTodoItems w) xs (run ops w)) = getTotalCount (run ops w)
        \<and> itemRefs (array_push (getTodoItems w) r (run ops w)) = itemRefs (run ops w)
        \<and> getTotalCount (array_push (getTodoItems w) r (run ops w)) = getTotalCount (run ops w))"
proof -
  have same: "getTodoItems w = items w
   \<and> itemRefs (array_push (getTodoItems w) r w) = itemRefs w @ [r]
   \<and> getTotalCount (array_push (getTodoItems w) r w) = Suc (getTotalCount w)
   \<and> getTodoItems (array_push (getTodoItems w) r w) = getTodoItems w
   \<and> calls (array_push (getTodoItems w) r w) = calls w
   \<and> seen (array_push (getTodoItems w) r w) = seen w
   \<and> itemRefs (array_assign (getTodoItems w) xs w) = xs
   \<and> getTotalCount (array_assign (getTodoItems w) xs w) = length xs"
    by (simp add: getTodoItems_def array_push_def array_assign_def itemRefs_def getTotalCount_def)
  have any: "itemRefs (array_assign a xs w') = (if a = getTodoItems w' then xs else itemRefs w')
   \<and> itemRefs (array_push a r w') = (if a = getTodoItems w' then itemRefs w' @ [r] else itemRefs w')"
    for a w'
    by (simp add: getTodoItems_def array_push_def array_assign_def itemRefs_def)
  have count: "getTotalCount v = length (itemRefs v)" for v
    by (simp add: getTotalCount_def itemRefs_def)
  have keep: "getTodoItems (run ops w) = getTodoItems w
        \<and> itemRefs (array_assign (getTodoItems w) xs (run ops w)) = xs
        \<and> getTotalCount (array_assign (getTodoItems w) xs (run ops w)) = length xs
        \<and> itemRefs (array_push (getTodoItems w) r (run ops w)) = itemRefs (run ops w) @ [r]
        \<and> getTotalCount (array_push (getTodoItems w) r (run ops w)) = Suc (getTotalCount (run ops w))"
    if "\<forall>op \<in> set ops. \<not> is_DeleteTodo op"
  proof -
    have "getTodoItems (run ops w) = getTodoItems w"
      using items_run_no_delete [OF that, of w] by (simp add: getTodoItems_def)
    then show ?thesis by (simp add: any count)
  qed
  have lose: "getTodoItems (run ops w) \<noteq> getTodoItems w
        \<and> itemRefs (array_assign (getTodoItems w) xs (run ops w)) = itemRefs (run ops w)
        \<and> getTotalCount (array_assign (getTodoItems w) xs (run ops w)) = getTotalCount (run ops w)
        \<and> itemRefs (array_push (getTodoItems w) r (run ops w)) = itemRefs (run ops w)
        \<and> getTotalCount (array_push (getTodoItems w) r (run ops w)) = getTotalCount (run ops w)"
    if "items w < nextArray w" "\<exists>op \<in> set ops. is_DeleteTodo op"
  proof -
    have "getTodoItems (run ops w) \<noteq> getTodoItems w"
      using items_run_delete [OF that] that(1) by (simp add: getTodoItems_def)
    then show ?thesis by (simp add: any count)
  qed
  show ?thesis using same any keep lose by blast
qed

theorem getTodoItems_returns_internal_array_witness:
  "list_all (\<lambda>op. \<not> is_DeleteTodo op) [HandleAdd ''B'', UpdateTodo 0 True]
   \<and> itemRefs (array_push (getTodoItems (handleAdd ''A'' (new_App empty_world))) 7
        (run [HandleAdd ''B'', UpdateTodo 0 True] (handleAdd ''A'' (new_App empty_world)))) = [0, 1, 7]
   \<and> getTotalCount (array_push (getTodoItems (handleAdd ''A'' (new_App empty_world))) 7
        (run [HandleAdd ''B'', UpdateTodo 0 True] (handleAdd ''A'' (new_App empty_world)))) = 3
   \<and> items (handleAdd ''A'' (new_App empty_world)) < nextArray (handleAdd ''A'' (new_App empty_world))
   \<and> list_ex is_DeleteTodo [HandleAdd ''B'', DeleteTodo 5]
   \<and> itemRefs (array_push (getTodoItems (handleAdd ''A'' (new_App empty_world))) 7
        (run [HandleAdd ''B'', DeleteTodo 5] (handleAdd ''A'' (new_App empty_world)))) = [0, 1]
   \<and> getTotalCount (array_push (getTodoItems (handleAdd ''A'' (new_App empty_world))) 7
        (run [HandleAdd ''B'', DeleteTodo 5] (handleAdd ''A'' (new_App empty_world)))) = 2"
proof -
  let ?w = "handleAdd ''A'' (new_App empty_world)"
  have refs: "itemRefs (run [HandleAdd ''B'', UpdateTodo 0 True] ?w) = [0, 1]"
    "itemRefs (run [HandleAdd ''B'', DeleteTodo 5] ?w) = [0, 1]"
    by (simp_all add: world_simps)
  have alloc: "items ?w < nextArray ?w"
    by (simp add: world_simps)
  have no_del: "\<forall>op \<in> set [HandleAdd ''B'', UpdateTodo 0 True]. \<not> is_DeleteTodo op"
    and del: "\<exists>op \<in> set [HandleAdd ''B'', DeleteTodo 5]. is_DeleteTodo op"
    by simp_all
  note kept = getTodoItems_returns_internal_array
    [where w = ?w and ops = "[HandleAdd ''B'', UpdateTodo 0 True]" and r = 7]
  note lost = getTodoItems_returns_internal_array
    [where w = ?w and ops = "[HandleAdd ''B'', DeleteTodo 5]" and r = 7]
  have counts: "getTotalCount (run [HandleAdd ''B'', UpdateTodo 0 True] ?w) = 2"
    "getTotalCount (run [HandleAdd ''B'', DeleteTodo 5] ?w) = 2"
    by (simp_all add: world_simps)
  have k: "itemRefs (array_push (getTodoItems ?w) 7 (run [HandleAdd ''B'', UpdateTodo 0 True] ?w))
      = itemRefs (run [HandleAdd ''B'', UpdateTodo 0 True] ?w) @ [7]"
    "getTotalCount (array_push (getTodoItems ?w) 7 (run [HandleAdd ''B'', UpdateTodo 0 True] ?w))
      = Suc (getTotalCount (run [HandleAdd ''B'', UpdateTodo 0 True] ?w))"
    using kept no_del by blast+
  have l: "itemRefs (array_push (getTodoItems ?w) 7 (run [HandleAdd ''B'', DeleteTodo 5] ?w))
      = itemRefs (run [HandleAdd ''B'', DeleteTodo 5] ?w)"
    "getTotalCount (array_push (getTodoItems ?w) 7 (run [HandleAdd ''B'', DeleteTodo 5] ?w))
      = getTotalCount (run [HandleAdd ''B'', DeleteTodo 5] ?w)"
    using lost alloc del by blast+
  show ?thesis
    unfolding k l refs counts using alloc by simp
qed

lemma perform_itemRefs:
  "is_UpdateTodo op \<or> is_DeleteTodo op \<Longrightarrow>
   itemRefs (perform op w) = filter (\<lambda>r. id' (objects w r) \<notin> set (deleted_ids [op])) (itemRefs w)"
  by (cases op) (simp_all add: handleUpdate_def handleDelete_def itemRefs_updateTodo itemRefs_deleteTodo)

lemma perform_id_any:
  "is_UpdateTodo op \<or> is_DeleteTodo op \<Longrightarrow> id' (objects (perform op w) r) = id' (objects w r)"
  by (cases op) (simp_all add: handleUpdate_def handleDelete_def id_updateTodo objects_deleteTodo)

lemma deleted_ids_Cons: "set (deleted_ids (op # ops)) = set (deleted_ids [op]) \<union> set (deleted_ids ops)"
  by (cases op) auto

lemma run_itemRefs:
  "\<forall>op \<in> set ops. is_UpdateTodo op \<or> is_DeleteTodo op \<Longrightarrow>
   itemRefs (run ops w) = filter (\<lambda>r. id' (objects w r) \<notin> set (deleted_ids ops)) (itemRefs w)"
proof (induction ops arbitrary: w)
  case Nil
  show ?case by simp
next
  case (Cons op ops)
  have op: "is_UpdateTodo op \<or> is_DeleteTodo op" using Cons.prems by simp
  have "itemRefs (run (op # ops) w) =
      filter (\<lambda>r. id' (objects (perform op w) r) \<notin> set (deleted_ids ops)) (itemRefs (perform op w))"
    using Cons.IH [of "perform op w"] Cons.prems by simp
  also have "\<dots> = filter (\<lambda>r. id' (objects w r) \<notin> set (deleted_ids ops))
      (filter (\<lambda>r. id' (objects w r) \<notin> set (deleted_ids [op])) (itemRefs w))"
    using op by (simp add: perform_id_any perform_itemRefs)
  also have "\<dots> = filter (\<lambda>r. id' (objects w r) \<notin> set (deleted_ids (op # ops))) (itemRefs w)"
    unfolding deleted_ids_Cons [of op ops] by (simp add: conj_commute)
  finally show ?case .
qed

lemma run_id_any:
  "\<forall>op \<in> set ops. is_UpdateTodo op \<or> is_DeleteTodo op \<Longrightarrow>
   id' (objects (run ops w) r) = id' (objects w r)"
  by (induction ops arbitrary: w) (simp_all add: perform_id_any)

text \<open>
  C6. \<open>updateTodo\<close> leaves the sequence of the container as it is, with the same ids
  and titles at the same positions. \<open>deleteTodo\<close> leaves exactly the entities whose id
  differs from the given one, in the order they had. After any sequence of updates and
  deletes the container holds the entities of the start whose id was not deleted, in
  their original order. The list view has one child for each entity, in the order of the
  sequence.
\<close>

theorem update_delete_preserve_order:
  "itemRefs (updateTodo i c w) = itemRefs w
   \<and> map id' (entities (updateTodo i c w)) = map id' (entities w)
   \<and> map title (entities (updateTodo i c w)) = map title (entities w)
   \<and> itemRefs (deleteTodo i w) = filter (\<lambda>r. id' (objects w r) \<noteq> i) (itemRefs w)
   \<and> entities (deleteTodo i w) = filter (\<lambda>e. id' e \<noteq> i) (entities w)
   \<and> subseq (entities (deleteTodo i w)) (entities w)
   \<and> ((\<forall>op \<in> set ops. is_UpdateTodo op \<or> is_DeleteTodo op) \<longrightarrow>
        itemRefs (run ops w) = filter (\<lambda>r. id' (objects w r) \<notin> set (deleted_ids ops)) (itemRefs w)
        \<and> subseq (itemRefs (run ops w)) (itemRefs w)
        \<and> map id' (entities (run ops w)) = filter (\<lambda>j. j \<notin> set (deleted_ids ops)) (map id' (entities w)))
   \<and> snd (TodoListView_createElement (entities w)) = map TodoItemView_htmlString (entities w)"
proof -
  have u: "itemRefs (updateTodo i c w) = itemRefs w
   \<and> map id' (entities (updateTodo i c w)) = map id' (entities w)
   \<and> map title (entities (updateTodo i c w)) = map title (entities w)"
    by (simp add: entities_def itemRefs_updateTodo id_updateTodo title_updateTodo)
  have d: "itemRefs (deleteTodo i w) = filter (\<lambda>r. id' (objects w r) \<noteq> i) (itemRefs w)
   \<and> entities (deleteTodo i w) = filter (\<lambda>e. id' e \<noteq> i) (entities w)"
    by (simp add: entities_def itemRefs_deleteTodo objects_deleteTodo filter_map comp_def)
  then have s: "subseq (entities (deleteTodo i w)) (entities w)"
    by simp
  have r: "itemRefs (run ops w) = filter (\<lambda>r. id' (objects w r) \<notin> set (deleted_ids ops)) (itemRefs w)
        \<and> subseq (itemRefs (run ops w)) (itemRefs w)
        \<and> map id' (entities (run ops w)) = filter (\<lambda>j. j \<notin> set (deleted_ids ops)) (map id' (entities w))"
    if "\<forall>op \<in> set ops. is_UpdateTodo op \<or> is_DeleteTodo op"
    using that by (simp add: run_itemRefs entities_def run_id_any filter_map comp_def)
  have v: "snd (TodoListView_createElement (entities w)) = map TodoItemView_htmlString (entities w)"
    by (simp add: TodoListView_createElement_def)
  show ?thesis using u d s r v by blast
qed

theorem update_delete_preserve_order_witness:
  "list_all (\<lambda>op. is_UpdateTodo op \<or> is_DeleteTodo op) [UpdateTodo 1 True, DeleteTodo 0, UpdateTodo 2 True]
   \<and> map title (entities (run [UpdateTodo 1 True, DeleteTodo 0, UpdateTodo 2 True]
        (run [HandleAdd ''a'', HandleAdd ''b'', HandleAdd ''c''] (new_App empty_world)))) = [''b'', ''c'']
   \<and> map id' (entities (run [UpdateTodo 1 True, DeleteTodo 0, UpdateTodo 2 True]
        (run [HandleAdd ''a'', HandleAdd ''b'', HandleAdd ''c''] (new_App empty_world)))) = [1, 2]"
  using update_delete_preserve_order
      [of 0 True "run [HandleAdd ''a'', HandleAdd ''b'', HandleAdd ''c''] (new_App empty_world)"
        "[UpdateTodo 1 True, DeleteTodo 0, UpdateTodo 2 True]"]
  by (simp add: world_simps)




section \<open>Mounting the App\<close>

lemma mount_idem: "mount app (mount app w) = mount app w"
  by (simp add: mount_def onChange_def addEventListener_def form_addEventListener_def set_add_idem)

lemma mount_funpow: "(mount app ^^ Suc n) w = mount app w"
  by (induction n) (simp_all add: mount_idem)

lemma subscribers_mount:
  "handleChange app \<in> set (subscribers ''change'' (mount app w))"
  by (simp add: mount_def onChange_def form_addEventListener_def subscribers_def addEventListener_def
      set_add.rep_eq)

lemma handleAdd_calls:
  "t \<noteq> [] \<Longrightarrow> calls (handleAdd t w) = calls w @ subscribers ''change'' w"
  by (simp add: handleAdd_def new_TodoItemModel_def Let_def addTodo_eq subscribers_def)

lemma updateTodo_calls:
  "i \<in> set (map id' (entities w)) \<Longrightarrow> calls (updateTodo i c w) = calls w @ subscribers ''change'' w"
  by (cases "find (\<lambda>r. id' (objects w r) = i) (itemRefs w)")
    (auto simp: updateTodo_eq find_None_iff entities_def)

text \<open>
  C10. After one or more consecutive calls of \<open>mount\<close> the listeners subscribed to
  \<open>change\<close> are those after a single call, and \<open>#handleChange\<close> is among them once.
  \<open>mount\<close> calls no listener. A delete, an add with a non-empty title, or an update of
  an id that is in the container then calls \<open>#handleChange\<close> exactly once.
\<close>

theorem mount_repeated_one_call:
  "subscribers ''change'' ((mount app ^^ Suc n) w) = subscribers ''change'' (mount app w)
   \<and> count_list (subscribers ''change'' ((mount app ^^ Suc n) w)) (handleChange app) = 1
   \<and> calls ((mount app ^^ Suc n) w) = calls w
   \<and> count_list (calls (handleDelete i ((mount app ^^ Suc n) w))) (handleChange app)
       = Suc (count_list (calls w) (handleChange app))
   \<and> (t \<noteq> [] \<longrightarrow>
        count_list (calls (handleAdd t ((mount app ^^ Suc n) w))) (handleChange app)
          = Suc (count_list (calls w) (handleChange app)))
   \<and> (i \<in> set (map id' (entities ((mount app ^^ Suc n) w))) \<longrightarrow>
        count_list (calls (handleUpdate i c ((mount app ^^ Suc n) w))) (handleChange app)
          = Suc (count_list (calls w) (handleChange app)))"
proof -
  let ?w = "(mount app ^^ Suc n) w"
  have w: "?w = mount app w" by (rule mount_funpow)
  have one: "count_list (subscribers ''change'' ?w) (handleChange app) = 1"
    unfolding w by (simp add: count_subscribers subscribers_mount)
  have c: "calls ?w = calls w"
    unfolding w by (simp add: mount_def onChange_def form_addEventListener_def addEventListener_def)
  have d: "calls (handleDelete i ?w) = calls ?w @ subscribers ''change'' ?w"
    by (simp add: handleDelete_def deleteTodo_eq)
  have a: "calls (handleAdd t ?w) = calls ?w @ subscribers ''change'' ?w" if "t \<noteq> []"
    using that by (rule handleAdd_calls)
  have u: "calls (handleUpdate i c ?w) = calls ?w @ subscribers ''change'' ?w"
    if "i \<in> set (map id' (entities ?w))"
    unfolding handleUpdate_def using that by (rule updateTodo_calls)
  show ?thesis
    using one c d a u w by (simp del: funpow.simps)
qed

theorem mount_repeated_one_call_witness:
  "''x'' \<noteq> []
   \<and> count_list (calls (handleAdd ''x''
        ((mount \<lparr>handleChange = 7, handleSubmit = 8\<rparr> ^^ Suc 2) (handleAdd ''a'' (new_App empty_world)))))
        (handleChange \<lparr>handleChange = 7, handleSubmit = 8\<rparr>) = 1
   \<and> 0 \<in> set (map id' (entities
        ((mount \<lparr>handleChange = 7, handleSubmit = 8\<rparr> ^^ Suc 2) (handleAdd ''a'' (new_App empty_world)))))
   \<and> count_list (calls (handleUpdate 0 True
        ((mount \<lparr>handleChange = 7, handleSubmit = 8\<rparr> ^^ Suc 2) (handleAdd ''a'' (new_App empty_world)))))
        (handleChange \<lparr>handleChange = 7, handleSubmit = 8\<rparr>) = 1"
proof -
  let ?app = "\<lparr>handleChange = 7, handleSubmit = 8\<rparr>"
  let ?w = "handleAdd ''a'' (new_App empty_world)"
  have t: "''x'' \<noteq> []" by simp
  have c: "count_list (calls ?w) (handleChange ?app) = 0"
    by (simp add: world_simps)
  have m: "(mount ?app ^^ Suc 2) ?w = mount ?app ?w"
    by (rule mount_funpow)
  have i: "0 \<in> set (map id' (entities ((mount ?app ^^ Suc 2) ?w)))"
    unfolding m by (simp add: world_simps mount_def form_addEventListener_def)
  note inst = mount_repeated_one_call [where app = ?app and n = 2 and w = ?w and i = 0 and t = "''x''" and c = True]
  have "count_list (calls (handleAdd ''x'' ((mount ?app ^^ Suc 2) ?w))) (handleChange ?app) = 1"
    using inst t c by simp
  moreover have "count_list (calls (handleUpdate 0 True ((mount ?app ^^ Suc 2) ?w))) (handleChange ?app) = 1"
    using inst i c by simp
  ultimately show ?thesis using t i by blast
qed

end
